theory Spec2Isabelle
  imports Complex_Main "HOL-Library.Word"
begin

section \<open>The vibration telemetry sketch for the MPU6050\<close>

text \<open>
  The sketch samples a three-axis accelerometer, computes per axis the RMS value and the
  dominant frequency, and publishes the six numbers over MQTT behind a five second gate.

  Conventions of the embedding:
  \<^item> \<open>float\<close> and \<open>double\<close> values are real numbers: arithmetic is exact, and rounding,
    infinities and NaN are outside the model; in \<open>calculate_sampling_rate\<close>, whose
    guard against a zero duration is the subject of a claim, the division is a checked
    one, with the value \<open>None\<close> for a quotient by zero, which is no real number;
  \<^item> \<open>int\<close> arguments on which no operation can overflow (a number of points, a loop
    counter below it, a duration that is only converted to \<open>double\<close>) are unbounded
    integers;
  \<^item> the \<open>long\<close> time stamps of the publish gate are 32-bit words, subtracted with
    wrap-around and compared as signed values;
  \<^item> an array is a list, read with \<open>!\<close>; the sketch always passes arrays of exactly
    \<open>samples\<close> elements, and statements about array contents say so in a hypothesis.
\<close>

subsection \<open>Configuration\<close>

definition samples :: nat where
  "samples = 128"

subsection \<open>Utility functions\<close>

text \<open>
  Division of two \<open>double\<close> values: \<open>None\<close> when the divisor is zero, where the machine
  yields an infinity or NaN instead of a number.
\<close>

definition ddiv :: "real \<Rightarrow> real \<Rightarrow> real option" where
  "ddiv a b = (if b = 0 then None else Some (a / b))"

definition calculate_sampling_rate :: "int \<Rightarrow> int \<Rightarrow> real option" where
  "calculate_sampling_rate num_points duration_ms =
     (if duration_ms = 0 then Some 0.0
      else ddiv (real_of_int num_points) (real_of_int duration_ms / 1000.0))"

text \<open>
  The summation loop of \<open>calculate_rms\<close>: \<open>i\<close> is the loop counter, \<open>s\<close> the running
  \<open>sum_of_squares\<close>.
\<close>

function rms_loop :: "real list \<Rightarrow> int \<Rightarrow> int \<Rightarrow> real \<Rightarrow> real" where
  "rms_loop data_array num_points i s =
     (if i < num_points
      then rms_loop data_array num_points (i + 1)
             (s + data_array ! nat i * data_array ! nat i)
      else s)"
  by pat_completeness auto
termination
  by (relation "measure (\<lambda>(d, n, i, s). nat (n - i))") auto

declare rms_loop.simps [simp del]

definition calculate_rms :: "real list \<Rightarrow> int \<Rightarrow> real" where
  "calculate_rms data_array num_points =
     (if num_points = 0 then 0.0
      else sqrt (rms_loop data_array num_points 0 0.0 / real_of_int num_points))"

subsection \<open>Dominant frequency\<close>

text \<open>
  Steps 1 and 2 of \<open>perform_fft\<close>: the mean of the \<open>samples\<close> input values is
  subtracted from each of them. The result is the content of \<open>vReal\<close> handed to the
  transform (\<open>vImag\<close> is all zero).
\<close>

definition detrend :: "real list \<Rightarrow> real list" where
  "detrend data_array =
     (let sum = foldl (\<lambda>s i. s + data_array ! i) 0.0 [0..<samples];
          mean = sum / real samples
      in map (\<lambda>i. data_array ! i - mean) [0..<samples])"

text \<open>
  Step 4: the peak search. The pair is \<open>(peak_magnitude, peak_index)\<close>; the loop counter
  is a \<open>uint16_t\<close> that runs from 1 to \<open>samples / 2 - 1\<close> and cannot wrap.
\<close>

definition peak_step :: "real list \<Rightarrow> real \<times> nat \<Rightarrow> nat \<Rightarrow> real \<times> nat" where
  "peak_step vReal p i = (if vReal ! i > fst p then (vReal ! i, i) else p)"

definition peak_scan :: "real list \<Rightarrow> nat \<Rightarrow> real \<times> nat" where
  "peak_scan vReal n = foldl (peak_step vReal) (0.0, 0) [1..<n]"

definition find_peak :: "real list \<Rightarrow> real \<times> nat" where
  "find_peak vReal = peak_scan vReal (samples div 2)"

text \<open>
  \<open>perform_fft\<close>. The three calls into the arduinoFFT library (\<open>windowing\<close>,
  \<open>compute\<close>, \<open>complexToMagnitude\<close>) replace the content of \<open>vReal\<close> by the magnitude
  spectrum; the library is not part of the sketch, so their joint effect on \<open>vReal\<close> is
  the parameter \<open>fft\<close>. The value stored through \<open>frequency\<close> is the result.
\<close>

definition perform_fft :: "(real list \<Rightarrow> real list) \<Rightarrow> real list \<Rightarrow> real \<Rightarrow> real" where
  "perform_fft fft data_array actual_sampling_rate =
     (let vReal = fft (detrend data_array);
          peak_index = snd (find_peak vReal)
      in (real peak_index * actual_sampling_rate) / real samples)"

text \<open>
  Modelled from the spec: the arduinoFFT library is missing from the sources. The spec
  gives its three steps: a Hamming window on the detrended copy, a forward discrete Fourier
  transform of size N on the windowed sequence with zero imaginary part, and the magnitude
  of each bin.
\<close>

definition hamming_window :: "real list \<Rightarrow> real list" where
  "hamming_window v =
     map (\<lambda>i. v ! i * (0.54 - 0.46 * cos (2 * pi * real i / real (samples - 1))))
       [0..<samples]"

text \<open>
  Modelled from the spec: the forward discrete Fourier transform of size N that the
  missing library computes on the windowed sequence, the imaginary parts being zero.
\<close>

definition dft :: "real list \<Rightarrow> complex list" where
  "dft v =
     map (\<lambda>k. \<Sum>j\<leftarrow>[0..<samples].
            of_real (v ! j) * cis (- (2 * pi * real k * real j / real samples)))
       [0..<samples]"

text \<open>
  Modelled from the spec: the content of \<open>vReal\<close> after the three calls of the missing
  library, which is the magnitude of each bin of the transform of the windowed sequence.
\<close>

definition hamming_dft_magnitude :: "real list \<Rightarrow> real list" where
  "hamming_dft_magnitude v = map cmod (dft (hamming_window v))"

subsection \<open>Per-cycle analysis\<close>

text \<open>
  The six numbers of one cycle of \<open>loop\<close>. The arrays \<open>raw_ax\<close> (\<open>float\<close>) and
  \<open>fft_ax\<close> (\<open>double\<close>) are filled with the same readings, so one list per axis stands
  for both.
\<close>

record metrics =
  freq_x :: real
  freq_y :: real
  freq_z :: real
  rms_x :: real
  rms_y :: real
  rms_z :: real

definition loop_analysis ::
  "(real list \<Rightarrow> real list) \<Rightarrow> real list \<Rightarrow> real list \<Rightarrow> real list \<Rightarrow> real \<Rightarrow> metrics" where
  "loop_analysis fft ax ay az actual_sampling_rate =
     \<lparr>freq_x = perform_fft fft ax actual_sampling_rate,
      freq_y = perform_fft fft ay actual_sampling_rate,
      freq_z = perform_fft fft az actual_sampling_rate,
      rms_x = calculate_rms ax (int samples),
      rms_y = calculate_rms ay (int samples),
      rms_z = calculate_rms az (int samples)\<rparr>"

subsection \<open>State of the sketch and of its surroundings\<close>

text \<open>
  The global \<open>lastMsg\<close>, the state of the MQTT client as far as the sketch observes it,
  and a log of what the sketch has done: the topics passed to \<open>client.subscribe\<close>, the
  topic and payload of every call of \<open>client.publish\<close>, those among them for which
  \<open>client.publish\<close> returned true, the milliseconds spent in \<open>delay\<close>, and how often
  \<open>Serial\<close>, \<open>mpu.begin\<close>, \<open>WiFi.status\<close> and \<open>client.connect\<close> have been called.
\<close>

record sketch =
  lastMsg :: "32 word"
  connected :: bool
  subscribed :: "string list"
  published :: "(string \<times> string) list"
  delivered :: "(string \<times> string) list"
  waited :: nat
  serial_calls :: nat
  begin_calls :: nat
  status_calls :: nat
  connect_calls :: nat

definition initial :: sketch where
  "initial = \<lparr>lastMsg = 0, connected = False, subscribed = [], published = [],
     delivered = [], waited = 0,
     serial_calls = 0, begin_calls = 0, status_calls = 0, connect_calls = 0\<rparr>"

text \<open>
  What the hardware and the network answer: whether the \<open>n\<close>-th test of \<open>Serial\<close> finds
  the port ready, whether \<open>mpu.begin()\<close> finds the chip, whether the \<open>n\<close>-th call of
  \<open>WiFi.status()\<close> reports \<open>WL_CONNECTED\<close>, and whether the \<open>n\<close>-th call of
  \<open>client.connect\<close> succeeds. A successful \<open>client.connect\<close> makes
  \<open>client.connected()\<close> true.
\<close>

record world =
  serial_ready :: "nat \<Rightarrow> bool"
  mpu_found :: bool
  wifi_up :: "nat \<Rightarrow> bool"
  broker_accepts :: "nat \<Rightarrow> bool"

definition delay :: "nat \<Rightarrow> sketch \<Rightarrow> sketch" where
  "delay ms s = s\<lparr>waited := waited s + ms\<rparr>"

subsection \<open>Connectivity\<close>

text \<open>The polling loop of \<open>setup_wifi\<close>, and \<open>setup_wifi\<close> itself.\<close>

partial_function (option) wifi_wait :: "(nat \<Rightarrow> bool) \<Rightarrow> sketch \<Rightarrow> sketch option" where
  "wifi_wait wifi s =
     (if \<not> wifi (status_calls s)
      then wifi_wait wifi (delay 500 (s\<lparr>status_calls := status_calls s + 1\<rparr>))
      else Some (s\<lparr>status_calls := status_calls s + 1\<rparr>))"

definition setup_wifi :: "(nat \<Rightarrow> bool) \<Rightarrow> sketch \<Rightarrow> sketch option" where
  "setup_wifi wifi s = wifi_wait wifi (delay 10 s)"

partial_function (option) reconnect :: "(nat \<Rightarrow> bool) \<Rightarrow> sketch \<Rightarrow> sketch option" where
  "reconnect broker s =
     (if \<not> connected s
      then (if broker (connect_calls s)
            then reconnect broker
                   (s\<lparr>connected := True,
                      subscribed := subscribed s @ [''esp32_htj/output''],
                      connect_calls := connect_calls s + 1\<rparr>)
            else reconnect broker (delay 5000 (s\<lparr>connect_calls := connect_calls s + 1\<rparr>)))
      else Some s)"

text \<open>The first statement of \<open>loop\<close>.\<close>

definition loop_reconnect :: "world \<Rightarrow> sketch \<Rightarrow> sketch option" where
  "loop_reconnect w s = (if \<not> connected s then reconnect (broker_accepts w) s else Some s)"

subsection \<open>Start-up\<close>

text \<open>
  \<open>setup\<close> may stay in one of its loops for ever, and what it does while it stays there
  matters. Its runs are therefore bounded: every loop may test its condition at most
  \<open>fuel\<close> times. \<open>Returned t\<close> is a run that has come to its end in state \<open>t\<close>;
  \<open>Running t\<close> is a run whose loop has used up its tests and is still going, in state
  \<open>t\<close>.
\<close>

datatype run = Returned sketch | Running sketch

text \<open>The loop \<open>while (!Serial) delay(10);\<close>.\<close>

fun serial_wait :: "(nat \<Rightarrow> bool) \<Rightarrow> nat \<Rightarrow> sketch \<Rightarrow> run" where
  "serial_wait serial 0 s = Running s"
| "serial_wait serial (Suc fuel) s =
     (if \<not> serial (serial_calls s)
      then serial_wait serial fuel (delay 10 (s\<lparr>serial_calls := serial_calls s + 1\<rparr>))
      else Returned (s\<lparr>serial_calls := serial_calls s + 1\<rparr>))"

text \<open>The loop \<open>while (1) { delay(10); }\<close>.\<close>

fun halt :: "nat \<Rightarrow> sketch \<Rightarrow> run" where
  "halt 0 s = Running s"
| "halt (Suc fuel) s = halt fuel (delay 10 s)"

text \<open>The bounded runs of the polling loop of \<open>setup_wifi\<close> and of \<open>setup_wifi\<close>.\<close>

fun wifi_wait_run :: "(nat \<Rightarrow> bool) \<Rightarrow> nat \<Rightarrow> sketch \<Rightarrow> run" where
  "wifi_wait_run wifi 0 s = Running s"
| "wifi_wait_run wifi (Suc fuel) s =
     (if \<not> wifi (status_calls s)
      then wifi_wait_run wifi fuel (delay 500 (s\<lparr>status_calls := status_calls s + 1\<rparr>))
      else Returned (s\<lparr>status_calls := status_calls s + 1\<rparr>))"

definition setup_wifi_run :: "(nat \<Rightarrow> bool) \<Rightarrow> nat \<Rightarrow> sketch \<Rightarrow> run" where
  "setup_wifi_run wifi fuel s = wifi_wait_run wifi fuel (delay 10 s)"

text \<open>
  The function \<open>setup\<close> of the sketch. The configuration calls on the bus, the sensor
  and the client do not change the state observed here. The Arduino runtime calls \<open>loop\<close>
  only after \<open>setup\<close> has returned.
\<close>

definition sketch_setup :: "world \<Rightarrow> nat \<Rightarrow> sketch \<Rightarrow> run" where
  "sketch_setup w fuel s =
     (case serial_wait (serial_ready w) fuel s of
        Running t \<Rightarrow> Running t
      | Returned s1 \<Rightarrow>
          (case (let s2 = s1\<lparr>begin_calls := begin_calls s1 + 1\<rparr>
                 in if \<not> mpu_found w then halt fuel s2 else Returned s2) of
             Running t \<Rightarrow> Running t
           | Returned s3 \<Rightarrow> setup_wifi_run (wifi_up w) fuel (delay 100 s3)))"

subsection \<open>Publish gate\<close>

text \<open>
  The test \<open>now - lastMsg > 5000\<close> on two \<open>long\<close> values (32 bits on the ESP32). The
  subtraction wraps around; where it would overflow, C leaves the behaviour undefined.
\<close>

definition publish_due :: "32 word \<Rightarrow> 32 word \<Rightarrow> bool" where
  "publish_due now last_msg = (sint (now - last_msg) > 5000)"

text \<open>
  \<open>client.publish\<close>. The PubSubClient library is not part of the sketch: whether the
  \<open>n\<close>-th call (counted from 0) succeeds and returns true is the parameter \<open>accepts\<close>.
\<close>

definition client_publish ::
  "(nat \<Rightarrow> bool) \<Rightarrow> string \<Rightarrow> string \<Rightarrow> sketch \<Rightarrow> sketch" where
  "client_publish accepts topic payload s =
     s\<lparr>published := published s @ [(topic, payload)],
       delivered := (if accepts (length (published s))
                     then delivered s @ [(topic, payload)] else delivered s)\<rparr>"

text \<open>
  The gate statement of \<open>loop\<close>: from \<open>long now = millis();\<close> to the end of the
  \<open>if\<close> block. \<open>dtostrf val width prec\<close> is the text that the Arduino core writes into
  \<open>tempString\<close>; the core is not part of the sketch, so the function is a parameter. The
  sketch discards the results of \<open>client.publish\<close>. The capacity of \<open>tempString\<close>
  (8 bytes) is outside the model.
\<close>

definition loop_publish ::
  "(nat \<Rightarrow> bool) \<Rightarrow> (real \<Rightarrow> int \<Rightarrow> nat \<Rightarrow> string) \<Rightarrow> 32 word \<Rightarrow> metrics \<Rightarrow> sketch
     \<Rightarrow> sketch" where
  "loop_publish accepts dtostrf now m s =
     (if publish_due now (lastMsg s)
      then (let s = s\<lparr>lastMsg := now\<rparr>;
                s = client_publish accepts ''esp32_htj/freq_x'' (dtostrf (freq_x m) 1 2) s;
                s = client_publish accepts ''esp32_htj/freq_y'' (dtostrf (freq_y m) 1 2) s;
                s = client_publish accepts ''esp32_htj/freq_z'' (dtostrf (freq_z m) 1 2) s;
                s = client_publish accepts ''esp32_htj/rms_x'' (dtostrf (rms_x m) 1 4) s;
                s = client_publish accepts ''esp32_htj/rms_y'' (dtostrf (rms_y m) 1 4) s;
                s = client_publish accepts ''esp32_htj/rms_z'' (dtostrf (rms_z m) 1 4) s
            in s)
      else s)"

section \<open>Signal processing\<close>

subsection \<open>Sampling rate\<close>

text \<open>
  Claim C9. \<open>calculate_sampling_rate\<close> is total: it yields a number for every number of
  points and every duration. For a duration of 0 ms, where the quotient it would otherwise
  form is a division by zero, it returns 0.0; for any other duration it returns the number
  of points divided by the duration in seconds, so that the rate times the duration in
  seconds is the number of points again.
\<close>

theorem calculate_sampling_rate_total:
  "(\<exists>rate. calculate_sampling_rate num_points duration_ms = Some rate) \<and>
   calculate_sampling_rate num_points 0 = Some 0 \<and>
   ddiv (real_of_int num_points) (real_of_int 0 / 1000) = None \<and>
   (duration_ms \<noteq> 0 \<longrightarrow>
      calculate_sampling_rate num_points duration_ms
        = Some (real_of_int num_points / (real_of_int duration_ms / 1000)) \<and>
      (\<forall>rate. calculate_sampling_rate num_points duration_ms = Some rate \<longrightarrow>
         rate * (real_of_int duration_ms / 1000) = real_of_int num_points))"
proof -
  have zero: "calculate_sampling_rate num_points 0 = Some 0"
    by (simp add: calculate_sampling_rate_def)
  have undef: "ddiv (real_of_int num_points) (real_of_int 0 / 1000) = None"
    by (simp add: ddiv_def)
  have quot: "calculate_sampling_rate num_points duration_ms
      = Some (real_of_int num_points / (real_of_int duration_ms / 1000))"
    if "duration_ms \<noteq> 0"
    using that by (simp add: calculate_sampling_rate_def ddiv_def)
  have times: "rate * (real_of_int duration_ms / 1000) = real_of_int num_points"
    if nz: "duration_ms \<noteq> 0"
      and eq: "calculate_sampling_rate num_points duration_ms = Some rate"
    for rate
  proof -
    from eq quot [OF nz]
    have "rate = real_of_int num_points / (real_of_int duration_ms / 1000)"
      by simp
    with nz show ?thesis
      by simp
  qed
  have total: "\<exists>rate. calculate_sampling_rate num_points duration_ms = Some rate"
  proof (cases "duration_ms = 0")
    case True
    with zero show ?thesis by simp
  next
    case False
    with quot show ?thesis by simp
  qed
  show ?thesis
  proof (intro conjI impI allI)
    show "\<exists>rate. calculate_sampling_rate num_points duration_ms = Some rate"
      by (rule total)
    show "calculate_sampling_rate num_points 0 = Some 0"
      by (rule zero)
    show "ddiv (real_of_int num_points) (real_of_int 0 / 1000) = None"
      by (rule undef)
    show "calculate_sampling_rate num_points duration_ms
        = Some (real_of_int num_points / (real_of_int duration_ms / 1000))"
      if "duration_ms \<noteq> 0"
      using that by (rule quot)
    show "rate * (real_of_int duration_ms / 1000) = real_of_int num_points"
      if "duration_ms \<noteq> 0" "calculate_sampling_rate num_points duration_ms = Some rate"
      for rate
      using that by (rule times)
  qed
qed


theorem calculate_sampling_rate_total_witness:
  "calculate_sampling_rate 128 0 = Some 0 \<and> (64::int) \<noteq> 0 \<and>
   calculate_sampling_rate 128 64 = Some 2000 \<and>
   2000 * (real_of_int 64 / 1000) = real_of_int 128"
proof -
  note inst = calculate_sampling_rate_total [of 128 64]
  have nz: "(64::int) \<noteq> 0"
    by simp
  from inst have "calculate_sampling_rate 128 0 = Some 0"
    by (elim conjE)
  moreover from inst nz
  have "calculate_sampling_rate 128 64 = Some (real_of_int 128 / (real_of_int 64 / 1000))"
    by (elim conjE impE) assumption+
  then have "calculate_sampling_rate 128 64 = Some 2000"
    by simp
  ultimately show ?thesis
    by simp
qed

subsection \<open>RMS\<close>

lemma rms_loop_sum:
  "0 \<le> i \<Longrightarrow> i \<le> n \<Longrightarrow> nat n \<le> length xs \<Longrightarrow>
   rms_loop xs n i s = s + (\<Sum>x\<leftarrow>drop (nat i) (take (nat n) xs). x * x)"
proof (induction xs n i s rule: rms_loop.induct)
  case (1 xs n i s)
  show ?case
  proof (cases "i < n")
    case True
    with "1.prems" have len: "nat i < length (take (nat n) xs)"
      by simp
    from True "1.prems" have suc: "nat (i + 1) = Suc (nat i)"
      by simp
    from True "1.prems" have nth: "take (nat n) xs ! nat i = xs ! nat i"
      by simp
    have "rms_loop xs n i s = rms_loop xs n (i + 1) (s + xs ! nat i * xs ! nat i)"
      using True by (subst rms_loop.simps) simp
    also have "\<dots> = (s + xs ! nat i * xs ! nat i)
        + (\<Sum>x\<leftarrow>drop (nat (i + 1)) (take (nat n) xs). x * x)"
      using True "1.prems" by (intro "1.IH") auto
    also have "\<dots> = s + (\<Sum>x\<leftarrow>drop (nat i) (take (nat n) xs). x * x)"
    proof -
      have "drop (nat i) (take (nat n) xs)
          = xs ! nat i # drop (nat (i + 1)) (take (nat n) xs)"
        using Cons_nth_drop_Suc [OF len] by (simp add: suc nth)
      then show ?thesis by simp
    qed
    finally show ?thesis .
  next
    case False
    with "1.prems" have "i = n" by simp
    then show ?thesis
      by (subst rms_loop.simps) simp
  qed
qed

lemma calculate_rms_sum:
  assumes "0 < n" "nat n \<le> length xs"
  shows "calculate_rms xs n = sqrt ((\<Sum>x\<leftarrow>take (nat n) xs. x * x) / real_of_int n)"
  using assms rms_loop_sum [of 0 n xs 0] by (simp add: calculate_rms_def)

lemma calculate_rms_constant:
  assumes "0 < n"
  shows "calculate_rms (replicate (nat n) c) n = \<bar>c\<bar>"
proof -
  have "calculate_rms (replicate (nat n) c) n
      = sqrt ((real (nat n) * (c * c)) / real_of_int n)"
    using assms by (simp add: calculate_rms_sum sum_list_replicate)
  also have "real (nat n) * (c * c) / real_of_int n = c * c"
    using assms by simp
  finally show ?thesis by simp
qed

text \<open>
  Claim C3. The RMS value is the square root of the mean of the squares of the samples
  as they are passed in, with no mean subtracted; \<open>loop\<close> passes the raw readings of the
  axis. Hence a constant signal, all samples equal to \<open>c\<close>, has the RMS value \<open>\<bar>c\<bar>\<close>:
  the constant offset counts in full.
\<close>

theorem calculate_rms_raw:
  "(0 < n \<and> nat n \<le> length xs \<longrightarrow>
      calculate_rms xs n = sqrt ((\<Sum>x\<leftarrow>take (nat n) xs. x * x) / real_of_int n)) \<and>
   (0 < n \<longrightarrow> calculate_rms (replicate (nat n) c) n = \<bar>c\<bar>) \<and>
   (length ax = samples \<longrightarrow>
      rms_x (loop_analysis fft ax ay az rate) = sqrt ((\<Sum>x\<leftarrow>ax. x * x) / real samples))"
proof -
  have "rms_x (loop_analysis fft ax ay az rate) = sqrt ((\<Sum>x\<leftarrow>ax. x * x) / real samples)"
    if "length ax = samples"
    using that calculate_rms_sum [of "int samples" ax]
    by (simp add: loop_analysis_def samples_def)
  then show ?thesis
    using calculate_rms_sum [of n xs] calculate_rms_constant [of n c] by blast
qed

theorem calculate_rms_raw_witness:
  "(0::int) < 4 \<and> nat 4 \<le> length [3, -4, 0, 0 :: real] \<and>
   calculate_rms [3, -4, 0, 0] 4 = 5 / 2 \<and>
   calculate_rms (replicate (nat 4) (-3)) 4 = 3 \<and>
   length (replicate 128 (-3 :: real)) = samples \<and>
   rms_x (loop_analysis (\<lambda>v. v) (replicate 128 (-3)) [] [] 2000) = 3"
proof -
  have sq: "sqrt (25 / 4) = 5 / 2"
    using real_sqrt_abs2 [of "5 / 2"] by (simp add: power2_eq_square)
  have sq9: "sqrt 9 = 3"
    using real_sqrt_abs2 [of 3] by simp
  have "rms_x (loop_analysis (\<lambda>v. v) (replicate 128 (-3)) [] [] 2000) = 3"
    using calculate_rms_raw [of 4 "[]" 0 "replicate 128 (-3)" "\<lambda>v. v" "[]" "[]" 2000]
    by (simp add: samples_def sum_list_replicate sq9)
  moreover have "calculate_rms [3, -4, 0, 0] 4 = 5 / 2 \<and>
      calculate_rms (replicate (nat 4) (-3)) 4 = 3"
    using calculate_rms_raw [of 4 "[3, -4, 0, 0]" "-3" "[]" "\<lambda>v. v" "[]" "[]" 0] sq
    by simp
  ultimately show ?thesis
    by (simp add: samples_def)
qed

subsection \<open>Peak search\<close>

lemma peak_scan_Suc:
  "peak_scan v (Suc n) = (if 1 \<le> n then peak_step v (peak_scan v n) n else (0, 0))"
  by (simp add: peak_scan_def)

lemma peak_scan_inv:
  "(\<forall>j. 1 \<le> j \<and> j < n \<longrightarrow> v ! j \<le> fst (peak_scan v n)) \<and>
   (snd (peak_scan v n) = 0 \<longrightarrow> fst (peak_scan v n) = 0) \<and>
   (snd (peak_scan v n) \<noteq> 0 \<longrightarrow>
      snd (peak_scan v n) < n \<and> v ! snd (peak_scan v n) = fst (peak_scan v n) \<and>
      0 < fst (peak_scan v n) \<and>
      (\<forall>j. 1 \<le> j \<and> j < snd (peak_scan v n) \<longrightarrow> v ! j < fst (peak_scan v n)))"
proof (induction n)
  case 0
  show ?case by (simp add: peak_scan_def)
next
  case (Suc n)
  show ?case
  proof (cases "1 \<le> n")
    case False
    then show ?thesis by (simp add: peak_scan_Suc)
  next
    case True
    obtain m k where mk: "peak_scan v n = (m, k)"
      by (cases "peak_scan v n")
    from Suc mk have le: "\<forall>j. 1 \<le> j \<and> j < n \<longrightarrow> v ! j \<le> m"
      and zero: "k = 0 \<longrightarrow> m = 0"
      and pos: "k \<noteq> 0 \<longrightarrow> k < n \<and> v ! k = m \<and> 0 < m \<and> (\<forall>j. 1 \<le> j \<and> j < k \<longrightarrow> v ! j < m)"
      by simp_all
    show ?thesis
    proof (cases "v ! n > m")
      case greater: True
      then have step: "peak_scan v (Suc n) = (v ! n, n)"
        using True mk by (simp add: peak_scan_Suc peak_step_def)
      have "0 \<le> m" using zero pos by (cases "k = 0") auto
      moreover have "\<forall>j. 1 \<le> j \<and> j < Suc n \<longrightarrow> v ! j \<le> v ! n"
        using le greater by (auto simp: less_Suc_eq)
      moreover have "\<forall>j. 1 \<le> j \<and> j < n \<longrightarrow> v ! j < v ! n"
        using le greater by fastforce
      ultimately show ?thesis
        using True greater by (simp add: step)
    next
      case notgreater: False
      then have step: "peak_scan v (Suc n) = (m, k)"
        using True mk by (simp add: peak_scan_Suc peak_step_def)
      have "\<forall>j. 1 \<le> j \<and> j < Suc n \<longrightarrow> v ! j \<le> m"
        using le notgreater by (auto simp: less_Suc_eq)
      then show ?thesis
        using zero pos by (auto simp: step)
    qed
  qed
qed

lemma peak_scan_cong:
  "(\<forall>j. 1 \<le> j \<and> j < n \<longrightarrow> w ! j = v ! j) \<Longrightarrow> peak_scan w n = peak_scan v n"
proof (induction n)
  case 0
  show ?case by (simp add: peak_scan_def)
next
  case (Suc n)
  then have "peak_scan w n = peak_scan v n" by simp
  moreover have "1 \<le> n \<Longrightarrow> w ! n = v ! n" using Suc.prems by simp
  ultimately show ?case by (simp add: peak_scan_Suc peak_step_def)
qed

lemma peak_scan_index_bound: "snd (peak_scan v n) \<le> n - 1"
  using peak_scan_inv [of n v] by (cases "snd (peak_scan v n) = 0") auto

text \<open>
  Claim C2. \<open>perform_fft\<close> scans the magnitude bins 1 to \<open>samples / 2 - 1\<close> and no
  others: bin 0 and the bins from \<open>samples / 2\<close> on do not influence the result. The
  recorded magnitude \<open>m\<close> bounds every scanned bin; a peak index \<open>k\<close> other than 0 is a
  scanned bin that attains \<open>m\<close>, and every scanned bin before it is strictly smaller (the
  comparison is strict, so the earliest index wins a tie). The index stays 0, with
  \<open>m = 0\<close>, exactly when no scanned bin exceeds the initial magnitude 0.0. The frequency
  returned is \<open>k * rate / samples\<close>.
\<close>

theorem perform_fft_peak_search:
  "(let vReal = fft (detrend data_array);
        m = fst (find_peak vReal);
        k = snd (find_peak vReal)
    in perform_fft fft data_array rate = real k * rate / real samples \<and>
       (\<forall>j. 1 \<le> j \<and> j < samples div 2 \<longrightarrow> vReal ! j \<le> m) \<and>
       (k = 0 \<longrightarrow> m = 0) \<and>
       (k \<noteq> 0 \<longrightarrow> 1 \<le> k \<and> k < samples div 2 \<and> vReal ! k = m \<and> 0 < m \<and>
          (\<forall>j. 1 \<le> j \<and> j < k \<longrightarrow> vReal ! j < vReal ! k)) \<and>
       (\<forall>w. (\<forall>j. 1 \<le> j \<and> j < samples div 2 \<longrightarrow> w ! j = vReal ! j)
          \<longrightarrow> find_peak w = find_peak vReal))"
proof -
  define v where "v = fft (detrend data_array)"
  note inv = peak_scan_inv [of "samples div 2" v, folded find_peak_def]
  have freq: "perform_fft fft data_array rate = real (snd (find_peak v)) * rate / real samples"
    by (simp add: perform_fft_def v_def)
  have cong: "\<forall>w. (\<forall>j. 1 \<le> j \<and> j < samples div 2 \<longrightarrow> w ! j = v ! j)
      \<longrightarrow> find_peak w = find_peak v"
    by (simp add: find_peak_def peak_scan_cong)
  have pos: "snd (find_peak v) \<noteq> 0 \<longrightarrow> 1 \<le> snd (find_peak v) \<and>
      (\<forall>j. 1 \<le> j \<and> j < snd (find_peak v) \<longrightarrow> v ! j < v ! snd (find_peak v))"
    using inv by auto
  show ?thesis
    unfolding Let_def v_def [symmetric]
    using freq cong pos inv by blast
qed

theorem perform_fft_peak_search_witness:
  "perform_fft (\<lambda>v. 100 # 1 # 7 # 3 # 7 # replicate 123 0) (replicate 128 0) 1000 = 15.625 \<and>
   find_peak (100 # 1 # 7 # 3 # 7 # replicate 123 0) = (7, 2) \<and>
   (2::nat) \<noteq> 0 \<and> 1 \<le> (1::nat) \<and> (1::nat) < 2 \<and> 2 < samples div 2 \<and>
   (100 # 1 # 7 # 3 # 7 # replicate 123 0) ! 1 < ((100 # 1 # 7 # 3 # 7 # replicate 123 0) ! 2 :: real) \<and>
   find_peak (55 # 1 # 7 # 3 # 7 # replicate 123 0) = (7, 2)"
proof -
  have ev: "find_peak (100 # 1 # 7 # 3 # 7 # replicate 123 0) = (7, 2)"
    unfolding find_peak_def peak_scan_def samples_def peak_step_def by code_simp
  have same: "\<forall>j. 1 \<le> j \<and> j < samples div 2 \<longrightarrow>
      (55 # 1 # 7 # 3 # 7 # replicate 123 (0::real)) ! j = (100 # 1 # 7 # 3 # 7 # replicate 123 0) ! j"
    by (simp add: nth_Cons')
  have "find_peak (55 # 1 # 7 # 3 # 7 # replicate 123 0) = find_peak (100 # 1 # 7 # 3 # 7 # replicate 123 0)"
    using perform_fft_peak_search
      [of "\<lambda>v. 100 # 1 # 7 # 3 # 7 # replicate 123 0" "replicate 128 0" 1000] same
    unfolding Let_def by blast
  then show ?thesis
    using perform_fft_peak_search
      [of "\<lambda>v. 100 # 1 # 7 # 3 # 7 # replicate 123 0" "replicate 128 0" 1000] ev
    by (simp add: Let_def samples_def)
qed

text \<open>
  Claim C10. For every input array and every positive sampling rate the frequency that
  \<open>perform_fft\<close> returns is at least 0 and at most \<open>(samples / 2 - 1) * rate / samples\<close>,
  which is strictly below the Nyquist frequency \<open>rate / 2\<close>.
\<close>

theorem perform_fft_below_nyquist:
  "0 < rate \<Longrightarrow>
   0 \<le> perform_fft fft data_array rate \<and>
   perform_fft fft data_array rate \<le> real (samples div 2 - 1) * rate / real samples \<and>
   perform_fft fft data_array rate < rate / 2"
proof -
  assume rate: "0 < rate"
  define k where "k = snd (find_peak (fft (detrend data_array)))"
  have freq: "perform_fft fft data_array rate = real k * rate / 128"
    by (simp add: perform_fft_def k_def samples_def)
  have "k \<le> samples div 2 - 1"
    unfolding k_def find_peak_def by (rule peak_scan_index_bound)
  then have k: "real k \<le> 63"
    by (simp add: samples_def)
  then have "real k * rate \<le> 63 * rate"
    using rate by simp
  then show ?thesis
    using rate by (simp add: freq samples_def)
qed

theorem perform_fft_below_nyquist_witness:
  "(0::real) < 1000 \<and>
   perform_fft (\<lambda>v. 100 # 1 # 7 # 3 # 7 # replicate 123 0) (replicate 128 0) 1000 = 15.625 \<and>
   (0::real) \<le> 15.625 \<and> (15.625::real) \<le> real (samples div 2 - 1) * 1000 / real samples \<and>
   (15.625::real) < 1000 / 2"
proof -
  have ev: "find_peak (100 # 1 # 7 # 3 # 7 # replicate 123 0) = (7, 2)"
    unfolding find_peak_def peak_scan_def samples_def peak_step_def by code_simp
  have "perform_fft (\<lambda>v. 100 # 1 # 7 # 3 # 7 # replicate 123 0) (replicate 128 0) 1000 = 15.625"
    by (simp add: perform_fft_def ev samples_def)
  then show ?thesis
    using perform_fft_below_nyquist
      [of 1000 "\<lambda>v. 100 # 1 # 7 # 3 # 7 # replicate 123 0" "replicate 128 0"]
    by (simp add: samples_def)
qed

subsection \<open>The all-zero signal\<close>

lemma detrend_zero: "detrend (replicate samples 0) = replicate samples 0"
proof -
  have "foldl (\<lambda>s i. s + replicate n (0::real) ! i) 0 [0..<k] = 0" if "k \<le> n" for k n
    using that by (induction k) simp_all
  then have sum: "foldl (\<lambda>s i. s + replicate samples (0::real) ! i) 0 [0..<samples] = 0"
    by simp
  have "map ((!) (replicate samples (0::real))) [0..<length (replicate samples (0::real))]
      = replicate samples 0"
    by (rule map_nth)
  then show ?thesis
    by (simp add: detrend_def sum)
qed

lemma hamming_window_zero: "hamming_window (replicate samples 0) = replicate samples 0"
proof -
  have "hamming_window (replicate samples 0) = map (\<lambda>i. 0) [0..<samples]"
    unfolding hamming_window_def by (rule map_cong) simp_all
  then show ?thesis
    by (simp add: map_replicate_const)
qed

lemma sum_list_all_zero:
  "(\<And>x. x \<in> set xs \<Longrightarrow> f x = 0) \<Longrightarrow> (\<Sum>x\<leftarrow>xs. f x) = (0::complex)"
  by (induction xs) simp_all

lemma dft_zero: "dft (replicate samples 0) = replicate samples 0"
proof -
  have "dft (replicate samples 0) = map (\<lambda>k. 0) [0..<samples]"
    unfolding dft_def
  proof (rule map_cong)
    fix k
    show "(\<Sum>j\<leftarrow>[0..<samples]. complex_of_real (replicate samples 0 ! j)
        * cis (- (2 * pi * real k * real j / real samples))) = 0"
      by (rule sum_list_all_zero) simp
  qed simp
  then show ?thesis
    by (simp add: map_replicate_const)
qed

lemma hamming_dft_magnitude_zero:
  "hamming_dft_magnitude (replicate samples 0) = replicate samples 0"
  by (simp add: hamming_dft_magnitude_def hamming_window_zero dft_zero)

lemma find_peak_zero: "find_peak (replicate samples 0) = (0, 0)"
proof -
  note inv = peak_scan_inv [of "samples div 2" "replicate samples 0", folded find_peak_def]
  have "snd (find_peak (replicate samples 0)) = 0"
  proof (rule ccontr)
    assume nz: "snd (find_peak (replicate samples 0)) \<noteq> 0"
    with inv have "snd (find_peak (replicate samples 0)) < samples div 2"
      and "replicate samples (0::real) ! snd (find_peak (replicate samples 0)) > 0"
      by auto
    then show False by simp
  qed
  with inv show ?thesis
    by (simp add: prod_eq_iff)
qed

lemma peak_scan_no_positive_bin:
  assumes "\<forall>j. 1 \<le> j \<and> j < n \<longrightarrow> v ! j \<le> 0"
  shows "snd (peak_scan v n) = 0"
proof (rule ccontr)
  assume nz: "snd (peak_scan v n) \<noteq> 0"
  with peak_scan_inv [of n v] have "snd (peak_scan v n) < n"
    and "0 < v ! snd (peak_scan v n)"
    by auto
  with nz assms show False
    by (simp add: not_less [symmetric])
qed

text \<open>
  Claim C4. For the all-zero input (every one of the \<open>samples\<close> values is 0)
  \<open>calculate_rms\<close> returns 0, and the peak search of \<open>perform_fft\<close> leaves the peak index
  at 0, so that the dominant frequency is 0. This holds for the transform as the spec
  describes it, and for any transform that yields no positive magnitude in the scanned bins
  of the all-zero input.
\<close>

theorem all_zero_signal:
  "calculate_rms (replicate samples 0) (int samples) = 0 \<and>
   snd (find_peak (hamming_dft_magnitude (detrend (replicate samples 0)))) = 0 \<and>
   perform_fft hamming_dft_magnitude (replicate samples 0) rate = 0 \<and>
   ((\<forall>j. 1 \<le> j \<and> j < samples div 2 \<longrightarrow> fft (detrend (replicate samples 0)) ! j \<le> 0) \<longrightarrow>
      snd (find_peak (fft (detrend (replicate samples 0)))) = 0 \<and>
      perform_fft fft (replicate samples 0) rate = 0)"
proof -
  have "calculate_rms (replicate samples 0) (int samples) = 0"
    using calculate_rms_constant [of "int samples" 0] by (simp add: samples_def)
  moreover have "snd (find_peak (hamming_dft_magnitude (detrend (replicate samples 0)))) = 0"
    by (simp add: detrend_zero hamming_dft_magnitude_zero find_peak_zero)
  moreover have "snd (find_peak (fft (detrend (replicate samples 0)))) = 0"
    if "\<forall>j. 1 \<le> j \<and> j < samples div 2 \<longrightarrow> fft (detrend (replicate samples 0)) ! j \<le> 0"
    using that unfolding find_peak_def by (rule peak_scan_no_positive_bin)
  ultimately show ?thesis
    by (simp add: perform_fft_def)
qed

theorem all_zero_signal_witness:
  "(1::nat) \<le> 63 \<and> 63 < samples div 2 \<and>
   hamming_dft_magnitude (detrend (replicate samples 0)) ! 63 \<le> 0 \<and>
   calculate_rms (replicate samples 0) (int samples) = 0 \<and>
   snd (find_peak (hamming_dft_magnitude (detrend (replicate samples 0)))) = 0 \<and>
   perform_fft hamming_dft_magnitude (replicate samples 0) 2000 = 0"
proof -
  have bins: "hamming_dft_magnitude (detrend (replicate samples 0)) ! j \<le> 0"
    if "1 \<le> j \<and> j < samples div 2" for j
  proof -
    from that have "j < samples" by (simp add: samples_def)
    then show ?thesis
      by (simp add: detrend_zero hamming_dft_magnitude_zero)
  qed
  have "63 < samples div 2"
    by (simp add: samples_def)
  with bins [of 63] show ?thesis
    using bins all_zero_signal [of 2000 hamming_dft_magnitude] by simp
qed

section \<open>Publish gate\<close>

lemma client_publish_fields:
  "lastMsg (client_publish accepts topic payload s) = lastMsg s"
  "published (client_publish accepts topic payload s) = published s @ [(topic, payload)]"
  "delivered (client_publish accepts topic payload s) =
     (if accepts (length (published s)) then delivered s @ [(topic, payload)]
      else delivered s)"
  by (simp_all add: client_publish_def)

lemma loop_publish_accept:
  "publish_due now (lastMsg s) \<Longrightarrow>
   lastMsg (loop_publish accepts dtostrf now m s) = now \<and>
   published (loop_publish accepts dtostrf now m s) =
     published s @
         [(''esp32_htj/freq_x'', dtostrf (freq_x m) 1 2),
          (''esp32_htj/freq_y'', dtostrf (freq_y m) 1 2),
          (''esp32_htj/freq_z'', dtostrf (freq_z m) 1 2),
          (''esp32_htj/rms_x'', dtostrf (rms_x m) 1 4),
          (''esp32_htj/rms_y'', dtostrf (rms_y m) 1 4),
          (''esp32_htj/rms_z'', dtostrf (rms_z m) 1 4)]"
  by (simp add: loop_publish_def Let_def client_publish_fields)

lemma loop_publish_drop:
  "\<not> publish_due now (lastMsg s) \<Longrightarrow> loop_publish accepts dtostrf now m s = s"
  by (simp add: loop_publish_def)

lemma loop_publish_none_delivered:
  "publish_due now (lastMsg s) \<Longrightarrow> (\<forall>n. \<not> accepts n) \<Longrightarrow>
   delivered (loop_publish accepts dtostrf now m s) = delivered s"
  by (simp add: loop_publish_def Let_def client_publish_fields)

lemma loop_publish_all_delivered:
  "publish_due now (lastMsg s) \<Longrightarrow> (\<forall>n. accepts n) \<Longrightarrow>
   delivered (loop_publish accepts dtostrf now m s) =
     delivered s @
         [(''esp32_htj/freq_x'', dtostrf (freq_x m) 1 2),
          (''esp32_htj/freq_y'', dtostrf (freq_y m) 1 2),
          (''esp32_htj/freq_z'', dtostrf (freq_z m) 1 2),
          (''esp32_htj/rms_x'', dtostrf (rms_x m) 1 4),
          (''esp32_htj/rms_y'', dtostrf (rms_y m) 1 4),
          (''esp32_htj/rms_z'', dtostrf (rms_z m) 1 4)]"
  by (simp add: loop_publish_def Let_def client_publish_fields)

lemma publish_due_int:
  assumes "- (2 ^ 31) \<le> sint now - sint last_msg" "sint now - sint last_msg < 2 ^ 31"
  shows "publish_due now last_msg \<longleftrightarrow> 5000 < sint now - sint last_msg"
proof -
  have "sint (now - last_msg) = sint now - sint last_msg"
    using assms by (simp add: sint_word_diff signed_take_bit_int_eq_self)
  then show ?thesis
    by (simp add: publish_due_def)
qed

lemma publish_due_from_zero:
  "\<not> publish_due 0 0" "\<not> publish_due 5000 0" "publish_due 5001 0"
  by (simp_all add: publish_due_def)

text \<open>
  Claim C1, as the sketch has it. A batch is accepted exactly when
  \<open>now - lastMsg\<close> is strictly greater than 5000 ms, the difference being taken in 32-bit
  signed arithmetic (it is the difference of the two time stamps as integers whenever that
  fits in 32 bits); otherwise the call leaves the state as it is. Starting from
  \<open>lastMsg = 0\<close>, calls at t = 0 and t = 5000 are both dropped, and a call at t = 5001
  after the dropped call at t = 0 is accepted.
\<close>

theorem publish_gate_strict:
  "(published (loop_publish accepts dtostrf now m s) \<noteq> published s
      \<longleftrightarrow> publish_due now (lastMsg s)) \<and>
   (\<not> publish_due now (lastMsg s) \<longrightarrow> loop_publish accepts dtostrf now m s = s) \<and>
   (- (2 ^ 31) \<le> sint now - sint (lastMsg s) \<and> sint now - sint (lastMsg s) < 2 ^ 31 \<longrightarrow>
      (publish_due now (lastMsg s) \<longleftrightarrow> 5000 < sint now - sint (lastMsg s))) \<and>
   (lastMsg s = 0 \<longrightarrow>
      loop_publish accepts dtostrf 5000 m (loop_publish accepts dtostrf 0 m s) = s \<and>
      published (loop_publish accepts dtostrf 5001 m (loop_publish accepts dtostrf 0 m s))
        \<noteq> published s)"
proof -
  have iff: "published (loop_publish accepts dtostrf now m s) \<noteq> published s
      \<longleftrightarrow> publish_due now (lastMsg s)"
    by (cases "publish_due now (lastMsg s)")
      (simp_all add: loop_publish_accept loop_publish_drop)
  have scen: "loop_publish accepts dtostrf 5000 m (loop_publish accepts dtostrf 0 m s) = s \<and>
      published (loop_publish accepts dtostrf 5001 m (loop_publish accepts dtostrf 0 m s))
        \<noteq> published s"
    if "lastMsg s = 0"
    using that publish_due_from_zero
    by (simp add: loop_publish_drop loop_publish_accept)
  show ?thesis
    using iff scen loop_publish_drop [of now s accepts dtostrf m]
      publish_due_int [of now "lastMsg s"]
    by blast
qed

theorem publish_gate_strict_witness:
  "published (loop_publish (\<lambda>n. True) (\<lambda>v w p. ''0'') 5000
       (loop_analysis (\<lambda>v. v) [] [] [] 0) initial)
     = published initial \<and>
   \<not> publish_due 5000 (lastMsg initial) \<and>
   - (2 ^ 31) \<le> sint (5000 :: 32 word) - sint (lastMsg initial) \<and>
   sint (5000 :: 32 word) - sint (lastMsg initial) < 2 ^ 31 \<and>
   \<not> 5000 < sint (5000 :: 32 word) - sint (lastMsg initial) \<and>
   lastMsg initial = 0 \<and>
   loop_publish (\<lambda>n. True) (\<lambda>v w p. ''0'') 5000 (loop_analysis (\<lambda>v. v) [] [] [] 0)
     (loop_publish (\<lambda>n. True) (\<lambda>v w p. ''0'') 0 (loop_analysis (\<lambda>v. v) [] [] [] 0) initial)
     = initial \<and>
   published (loop_publish (\<lambda>n. True) (\<lambda>v w p. ''0'') 5001 (loop_analysis (\<lambda>v. v) [] [] [] 0)
     (loop_publish (\<lambda>n. True) (\<lambda>v w p. ''0'') 0 (loop_analysis (\<lambda>v. v) [] [] [] 0) initial))
     \<noteq> published initial"
proof -
  have z: "lastMsg initial = 0" by (simp add: initial_def)
  have nd: "\<not> publish_due 5000 (lastMsg initial)"
    by (simp add: z publish_due_from_zero)
  show ?thesis
    using publish_gate_strict
      [where accepts = "\<lambda>n. True" and dtostrf = "\<lambda>v w p. ''0''" and now = 5000
        and m = "loop_analysis (\<lambda>v. v) [] [] [] 0" and s = initial] z nd
    by simp
qed

text \<open>
  Claim C1 as stated fails at the boundary: with \<open>lastMsg = 0\<close> and \<open>now = 5000\<close> the
  difference is 5000, which is not less than the interval, and the batch is not accepted;
  nor is the first call at t = 0.
\<close>

theorem publish_gate_5000_counterexample:
  "lastMsg initial = 0 \<and>
   5000 \<le> sint (5000 - lastMsg initial) \<and> \<not> publish_due 5000 (lastMsg initial) \<and>
   \<not> publish_due 0 (lastMsg initial)"
  by (simp add: initial_def publish_due_def)

text \<open>
  Claim C5. Publishing is all or nothing: when the gate accepts, the six values of the
  cycle are passed to \<open>client.publish\<close> in order, each under the topic
  \<open>esp32_htj/<suffix>\<close>, the three frequencies formatted by \<open>dtostrf\<close> with 2 decimal
  places and the three RMS values with 4; when the gate rejects, nothing is published.
\<close>

theorem publish_all_or_nothing:
  "published (loop_publish accepts dtostrf now m s) =
     (if publish_due now (lastMsg s)
      then published s @
         [(''esp32_htj'' @ ''/'' @ ''freq_x'', dtostrf (freq_x m) 1 2),
          (''esp32_htj'' @ ''/'' @ ''freq_y'', dtostrf (freq_y m) 1 2),
          (''esp32_htj'' @ ''/'' @ ''freq_z'', dtostrf (freq_z m) 1 2),
          (''esp32_htj'' @ ''/'' @ ''rms_x'', dtostrf (rms_x m) 1 4),
          (''esp32_htj'' @ ''/'' @ ''rms_y'', dtostrf (rms_y m) 1 4),
          (''esp32_htj'' @ ''/'' @ ''rms_z'', dtostrf (rms_z m) 1 4)]
      else published s)"
  by (simp add: loop_publish_accept loop_publish_drop)

theorem publish_all_or_nothing_witness:
  "publish_due 6000 (lastMsg initial) \<and>
   published (loop_publish (\<lambda>n. True) (\<lambda>v w p. if p = 2 then ''15.63'' else ''9.8100'') 6000
       (loop_analysis (\<lambda>v. v) [] [] [] 0) initial)
     = [(''esp32_htj/freq_x'', ''15.63''), (''esp32_htj/freq_y'', ''15.63''),
        (''esp32_htj/freq_z'', ''15.63''), (''esp32_htj/rms_x'', ''9.8100''),
        (''esp32_htj/rms_y'', ''9.8100''), (''esp32_htj/rms_z'', ''9.8100'')] \<and>
   \<not> publish_due 4000 (lastMsg initial) \<and>
   published (loop_publish (\<lambda>n. True) (\<lambda>v w p. if p = 2 then ''15.63'' else ''9.8100'') 4000
       (loop_analysis (\<lambda>v. v) [] [] [] 0) initial) = []"
proof -
  have a: "\<not> publish_due 4000 (lastMsg initial)" "publish_due 6000 (lastMsg initial)"
    by (simp_all add: initial_def publish_due_def)
  have e: "published initial = []"
    by (simp add: initial_def)
  show ?thesis
    using a e publish_all_or_nothing
      [where accepts = "\<lambda>n. True"
        and dtostrf = "\<lambda>v w p. if p = 2 then ''15.63'' else ''9.8100''" and now = 6000
        and m = "loop_analysis (\<lambda>v. v) [] [] [] 0" and s = initial]
      publish_all_or_nothing
      [where accepts = "\<lambda>n. True"
        and dtostrf = "\<lambda>v w p. if p = 2 then ''15.63'' else ''9.8100''" and now = 4000
        and m = "loop_analysis (\<lambda>v. v) [] [] [] 0" and s = initial]
    by simp
qed

text \<open>
  Claim C6, as the sketch has it. \<open>lastMsg\<close> becomes the current time exactly when the
  gate accepts the batch, together with the six calls of \<open>client.publish\<close> and whatever
  those calls return: the assignment is the first statement of the accepted branch and the
  results of the calls are discarded, so \<open>lastMsg\<close> is updated also when not one message
  of the batch is delivered. A dropped attempt leaves the whole state, the gate included,
  unchanged.
\<close>

theorem publish_gate_state:
  "(\<not> publish_due now (lastMsg s) \<longrightarrow> loop_publish accepts dtostrf now m s = s) \<and>
   (publish_due now (lastMsg s) \<longrightarrow>
      lastMsg (loop_publish accepts dtostrf now m s) = now \<and>
      published (loop_publish accepts dtostrf now m s) =
        published s @
         [(''esp32_htj/freq_x'', dtostrf (freq_x m) 1 2),
          (''esp32_htj/freq_y'', dtostrf (freq_y m) 1 2),
          (''esp32_htj/freq_z'', dtostrf (freq_z m) 1 2),
          (''esp32_htj/rms_x'', dtostrf (rms_x m) 1 4),
          (''esp32_htj/rms_y'', dtostrf (rms_y m) 1 4),
          (''esp32_htj/rms_z'', dtostrf (rms_z m) 1 4)] \<and>
      ((\<forall>n. \<not> accepts n) \<longrightarrow>
         delivered (loop_publish accepts dtostrf now m s) = delivered s) \<and>
      ((\<forall>n. accepts n) \<longrightarrow>
         delivered (loop_publish accepts dtostrf now m s) =
           delivered s @
         [(''esp32_htj/freq_x'', dtostrf (freq_x m) 1 2),
          (''esp32_htj/freq_y'', dtostrf (freq_y m) 1 2),
          (''esp32_htj/freq_z'', dtostrf (freq_z m) 1 2),
          (''esp32_htj/rms_x'', dtostrf (rms_x m) 1 4),
          (''esp32_htj/rms_y'', dtostrf (rms_y m) 1 4),
          (''esp32_htj/rms_z'', dtostrf (rms_z m) 1 4)]))"
proof (cases "publish_due now (lastMsg s)")
  case True
  then show ?thesis
    by (simp add: loop_publish_accept loop_publish_none_delivered loop_publish_all_delivered)
next
  case False
  then show ?thesis
    by (simp add: loop_publish_drop)
qed

theorem publish_gate_state_witness:
  "\<not> publish_due 4000 (lastMsg initial) \<and>
   loop_publish (\<lambda>n. False) (\<lambda>v w p. ''0'') 4000
     \<lparr>freq_x = 15.625, freq_y = 0, freq_z = 0, rms_x = 9.81, rms_y = 0, rms_z = 0\<rparr> initial
     = initial \<and>
   publish_due 6000 (lastMsg initial) \<and>
   lastMsg (loop_publish (\<lambda>n. False) (\<lambda>v w p. ''0'') 6000
     \<lparr>freq_x = 15.625, freq_y = 0, freq_z = 0, rms_x = 9.81, rms_y = 0, rms_z = 0\<rparr> initial)
     = 6000 \<and>
   published (loop_publish (\<lambda>n. False) (\<lambda>v w p. ''0'') 6000
     \<lparr>freq_x = 15.625, freq_y = 0, freq_z = 0, rms_x = 9.81, rms_y = 0, rms_z = 0\<rparr> initial)
     = [(''esp32_htj/freq_x'', ''0''), (''esp32_htj/freq_y'', ''0''),
        (''esp32_htj/freq_z'', ''0''), (''esp32_htj/rms_x'', ''0''),
        (''esp32_htj/rms_y'', ''0''), (''esp32_htj/rms_z'', ''0'')] \<and>
   delivered (loop_publish (\<lambda>n. False) (\<lambda>v w p. ''0'') 6000
     \<lparr>freq_x = 15.625, freq_y = 0, freq_z = 0, rms_x = 9.81, rms_y = 0, rms_z = 0\<rparr> initial)
     = [] \<and>
   delivered (loop_publish (\<lambda>n. True) (\<lambda>v w p. ''0'') 6000
     \<lparr>freq_x = 15.625, freq_y = 0, freq_z = 0, rms_x = 9.81, rms_y = 0, rms_z = 0\<rparr> initial)
     = [(''esp32_htj/freq_x'', ''0''), (''esp32_htj/freq_y'', ''0''),
        (''esp32_htj/freq_z'', ''0''), (''esp32_htj/rms_x'', ''0''),
        (''esp32_htj/rms_y'', ''0''), (''esp32_htj/rms_z'', ''0'')]"
proof -
  let ?m = "\<lparr>freq_x = 15.625, freq_y = 0, freq_z = 0, rms_x = 9.81, rms_y = 0, rms_z = 0\<rparr>"
  have a: "\<not> publish_due 4000 (lastMsg initial)" "publish_due 6000 (lastMsg initial)"
    by (simp_all add: initial_def publish_due_def)
  have e: "published initial = []" "delivered initial = []"
    by (simp_all add: initial_def)
  have drop: "loop_publish (\<lambda>n. False) (\<lambda>v w p. ''0'') 4000 ?m initial = initial"
    using a publish_gate_state
      [where accepts = "\<lambda>n. False" and dtostrf = "\<lambda>v w p. ''0''" and now = 4000
        and m = ?m and s = initial]
    by simp
  have none: "lastMsg (loop_publish (\<lambda>n. False) (\<lambda>v w p. ''0'') 6000 ?m initial) = 6000 \<and>
      published (loop_publish (\<lambda>n. False) (\<lambda>v w p. ''0'') 6000 ?m initial)
        = [(''esp32_htj/freq_x'', ''0''), (''esp32_htj/freq_y'', ''0''),
           (''esp32_htj/freq_z'', ''0''), (''esp32_htj/rms_x'', ''0''),
           (''esp32_htj/rms_y'', ''0''), (''esp32_htj/rms_z'', ''0'')] \<and>
      delivered (loop_publish (\<lambda>n. False) (\<lambda>v w p. ''0'') 6000 ?m initial) = []"
    using a e publish_gate_state
      [where accepts = "\<lambda>n. False" and dtostrf = "\<lambda>v w p. ''0''" and now = 6000
        and m = ?m and s = initial]
    by simp
  have all: "delivered (loop_publish (\<lambda>n. True) (\<lambda>v w p. ''0'') 6000 ?m initial)
        = [(''esp32_htj/freq_x'', ''0''), (''esp32_htj/freq_y'', ''0''),
           (''esp32_htj/freq_z'', ''0''), (''esp32_htj/rms_x'', ''0''),
           (''esp32_htj/rms_y'', ''0''), (''esp32_htj/rms_z'', ''0'')]"
    using a e publish_gate_state
      [where accepts = "\<lambda>n. True" and dtostrf = "\<lambda>v w p. ''0''" and now = 6000
        and m = ?m and s = initial]
    by simp
  from a drop none all show ?thesis by simp
qed

text \<open>
  Claim C6 as stated fails when the batch is accepted and does not succeed: from the
  initial state at \<open>now = 6000\<close>, with every \<open>client.publish\<close> returning false, no
  message is delivered and \<open>lastMsg\<close> is 6000 all the same.
\<close>

theorem publish_gate_failed_batch_counterexample:
  "lastMsg initial = 0 \<and> delivered initial = [] \<and>
   delivered (loop_publish (\<lambda>n. False) (\<lambda>v w p. ''0'') 6000
     \<lparr>freq_x = 15.625, freq_y = 0, freq_z = 0, rms_x = 9.81, rms_y = 0, rms_z = 0\<rparr> initial)
     = [] \<and>
   lastMsg (loop_publish (\<lambda>n. False) (\<lambda>v w p. ''0'') 6000
     \<lparr>freq_x = 15.625, freq_y = 0, freq_z = 0, rms_x = 9.81, rms_y = 0, rms_z = 0\<rparr> initial)
     = 6000"
  by (simp add: initial_def loop_publish_def Let_def client_publish_fields publish_due_def)

section \<open>Connectivity\<close>

lemma reconnect_Some_connected:
  assumes "reconnect broker s = Some s'"
  shows "connected s'"
  by (rule reconnect.raw_induct [where P = "\<lambda>broker s s'. connected s'", OF _ assms])
    (auto split: if_splits)

lemma reconnect_Some_accepts:
  assumes "reconnect broker s = Some s'"
  shows "connected s \<or> (\<exists>k. connect_calls s \<le> k \<and> broker k)"
proof (rule reconnect.raw_induct
    [where P = "\<lambda>broker s s'. connected s \<or> (\<exists>k. connect_calls s \<le> k \<and> broker k)",
      OF _ assms])
  fix reconnect' :: "(nat \<Rightarrow> bool) \<Rightarrow> sketch \<Rightarrow> sketch option" and broker s s'
  assume IH: "\<And>broker s s'. reconnect' broker s = Some s' \<Longrightarrow>
      connected s \<or> (\<exists>k. connect_calls s \<le> k \<and> broker k)"
    and body: "(if \<not> connected s
      then if broker (connect_calls s)
           then reconnect' broker
                  (s\<lparr>connected := True, subscribed := subscribed s @ [''esp32_htj/output''],
                     connect_calls := connect_calls s + 1\<rparr>)
           else reconnect' broker (delay 5000 (s\<lparr>connect_calls := connect_calls s + 1\<rparr>))
      else Some s) = Some s'"
  show "connected s \<or> (\<exists>k. connect_calls s \<le> k \<and> broker k)"
  proof (cases "connected s \<or> broker (connect_calls s)")
    case True
    then show ?thesis by auto
  next
    case False
    with body have "reconnect' broker (delay 5000 (s\<lparr>connect_calls := connect_calls s + 1\<rparr>))
        = Some s'"
      by simp
    from IH [OF this] False obtain k where "connect_calls s + 1 \<le> k" "broker k"
      by (auto simp: delay_def)
    then have "connect_calls s \<le> k \<and> broker k" by simp
    then show ?thesis by blast
  qed
qed

lemma reconnect_returns:
  "\<not> connected s \<Longrightarrow> connect_calls s \<le> k \<Longrightarrow> broker k \<Longrightarrow>
   (\<forall>j. connect_calls s \<le> j \<and> j < k \<longrightarrow> \<not> broker j) \<Longrightarrow>
   reconnect broker s =
     Some (s\<lparr>connected := True,
             subscribed := subscribed s @ [''esp32_htj/output''],
             waited := waited s + 5000 * (k - connect_calls s),
             connect_calls := k + 1\<rparr>)"
proof (induction "k - connect_calls s" arbitrary: s)
  case 0
  then have k: "k = connect_calls s" by simp
  let ?s1 = "s\<lparr>connected := True, subscribed := subscribed s @ [''esp32_htj/output''],
    connect_calls := connect_calls s + 1\<rparr>"
  have "reconnect broker s = reconnect broker ?s1"
    using 0 k by (subst reconnect.simps) simp
  also have "\<dots> = Some ?s1"
    by (subst reconnect.simps) simp
  finally show ?case
    by (simp add: k)
next
  case (Suc d)
  let ?s1 = "delay 5000 (s\<lparr>connect_calls := connect_calls s + 1\<rparr>)"
  from Suc have lt: "connect_calls s < k" by simp
  with Suc.prems have nb: "\<not> broker (connect_calls s)" by simp
  have step: "reconnect broker s = reconnect broker ?s1"
    using Suc.prems nb by (subst reconnect.simps) simp
  have "reconnect broker ?s1 =
     Some (?s1\<lparr>connected := True,
             subscribed := subscribed ?s1 @ [''esp32_htj/output''],
             waited := waited ?s1 + 5000 * (k - connect_calls ?s1),
             connect_calls := k + 1\<rparr>)"
  proof (rule Suc.hyps(1))
    show "d = k - connect_calls ?s1" using Suc.hyps(2) by (simp add: delay_def)
    show "\<not> connected ?s1" using Suc.prems by (simp add: delay_def)
    show "connect_calls ?s1 \<le> k" using lt by (simp add: delay_def)
    show "broker k" by fact
    show "\<forall>j. connect_calls ?s1 \<le> j \<and> j < k \<longrightarrow> \<not> broker j"
      using Suc.prems by (simp add: delay_def)
  qed
  moreover have "5000 + 5000 * (k - Suc (connect_calls s)) = 5000 * (k - connect_calls s)"
    using lt by simp
  ultimately show ?case
    by (simp add: step delay_def add.assoc)
qed

lemma reconnect_never:
  "\<not> connected s \<Longrightarrow> (\<forall>j. connect_calls s \<le> j \<longrightarrow> \<not> broker j) \<Longrightarrow>
   reconnect broker s = None"
  using reconnect_Some_accepts [of broker s] by (cases "reconnect broker s") auto

lemma wifi_wait_Some_up:
  assumes "wifi_wait wifi s = Some s'"
  shows "\<exists>k. status_calls s \<le> k \<and> wifi k"
proof (rule wifi_wait.raw_induct
    [where P = "\<lambda>wifi s s'. \<exists>k. status_calls s \<le> k \<and> wifi k", OF _ assms])
  fix wifi_wait' :: "(nat \<Rightarrow> bool) \<Rightarrow> sketch \<Rightarrow> sketch option" and wifi s s'
  assume IH: "\<And>wifi s s'. wifi_wait' wifi s = Some s' \<Longrightarrow> \<exists>k. status_calls s \<le> k \<and> wifi k"
    and body: "(if \<not> wifi (status_calls s)
      then wifi_wait' wifi (delay 500 (s\<lparr>status_calls := status_calls s + 1\<rparr>))
      else Some (s\<lparr>status_calls := status_calls s + 1\<rparr>)) = Some s'"
  show "\<exists>k. status_calls s \<le> k \<and> wifi k"
  proof (cases "wifi (status_calls s)")
    case True
    then show ?thesis by auto
  next
    case False
    with body have "wifi_wait' wifi (delay 500 (s\<lparr>status_calls := status_calls s + 1\<rparr>))
        = Some s'"
      by simp
    from IH [OF this] obtain k where "status_calls s + 1 \<le> k" "wifi k"
      by (auto simp: delay_def)
    then have "status_calls s \<le> k \<and> wifi k" by simp
    then show ?thesis by blast
  qed
qed

lemma wifi_wait_returns:
  "status_calls s \<le> k \<Longrightarrow> wifi k \<Longrightarrow>
   (\<forall>j. status_calls s \<le> j \<and> j < k \<longrightarrow> \<not> wifi j) \<Longrightarrow>
   wifi_wait wifi s =
     Some (s\<lparr>waited := waited s + 500 * (k - status_calls s), status_calls := k + 1\<rparr>)"
proof (induction "k - status_calls s" arbitrary: s)
  case 0
  then have k: "k = status_calls s" by simp
  show ?case
    using 0 by (subst wifi_wait.simps) (simp add: k)
next
  case (Suc d)
  let ?s1 = "delay 500 (s\<lparr>status_calls := status_calls s + 1\<rparr>)"
  from Suc have lt: "status_calls s < k" by simp
  with Suc.prems have nb: "\<not> wifi (status_calls s)" by simp
  have step: "wifi_wait wifi s = wifi_wait wifi ?s1"
    using nb by (subst wifi_wait.simps) simp
  have "wifi_wait wifi ?s1 =
     Some (?s1\<lparr>waited := waited ?s1 + 500 * (k - status_calls ?s1), status_calls := k + 1\<rparr>)"
  proof (rule Suc.hyps(1))
    show "d = k - status_calls ?s1" using Suc.hyps(2) by (simp add: delay_def)
    show "status_calls ?s1 \<le> k" using lt by (simp add: delay_def)
    show "wifi k" by fact
    show "\<forall>j. status_calls ?s1 \<le> j \<and> j < k \<longrightarrow> \<not> wifi j"
      using Suc.prems by (simp add: delay_def)
  qed
  moreover have "500 + 500 * (k - Suc (status_calls s)) = 500 * (k - status_calls s)"
    using lt by simp
  ultimately show ?case
    by (simp add: step delay_def add.assoc)
qed

lemma wifi_wait_never:
  "(\<forall>j. status_calls s \<le> j \<longrightarrow> \<not> wifi j) \<Longrightarrow> wifi_wait wifi s = None"
  using wifi_wait_Some_up [of wifi s] by (cases "wifi_wait wifi s") auto

text \<open>
  Claim C7. \<open>reconnect\<close> returns only in a state in which the client is connected, and
  it has no other way of returning: with a connected client it returns at once; otherwise
  it tries again and again, waiting 5000 ms after each failed attempt, and when attempt
  \<open>k\<close> is the first to succeed it subscribes to \<open>esp32_htj/output\<close> and returns; if no
  attempt ever succeeds it does not return. \<open>setup_wifi\<close> likewise polls the link every
  500 ms and returns exactly when a poll finds it up.
\<close>

theorem connectivity_contract:
  "(\<forall>s'. reconnect broker s = Some s' \<longrightarrow> connected s') \<and>
   (connected s \<longrightarrow> reconnect broker s = Some s) \<and>
   (\<not> connected s \<and> connect_calls s \<le> k \<and> broker k \<and>
      (\<forall>j. connect_calls s \<le> j \<and> j < k \<longrightarrow> \<not> broker j) \<longrightarrow>
      reconnect broker s =
        Some (s\<lparr>connected := True,
                subscribed := subscribed s @ [''esp32_htj/output''],
                waited := waited s + 5000 * (k - connect_calls s),
                connect_calls := k + 1\<rparr>)) \<and>
   (\<not> connected s \<and> (\<forall>j. connect_calls s \<le> j \<longrightarrow> \<not> broker j) \<longrightarrow>
      reconnect broker s = None) \<and>
   loop_reconnect w s = reconnect (broker_accepts w) s \<and>
   (status_calls s \<le> i \<and> wifi i \<and> (\<forall>j. status_calls s \<le> j \<and> j < i \<longrightarrow> \<not> wifi j) \<longrightarrow>
      setup_wifi wifi s =
        Some (s\<lparr>waited := waited s + 10 + 500 * (i - status_calls s),
                status_calls := i + 1\<rparr>)) \<and>
   ((\<forall>j. status_calls s \<le> j \<longrightarrow> \<not> wifi j) \<longrightarrow> setup_wifi wifi s = None)"
proof -
  have conn: "reconnect b s = Some s" if "connected s" for b
    using that by (subst reconnect.simps) simp
  have loop: "loop_reconnect w s = reconnect (broker_accepts w) s"
    by (cases "connected s") (simp_all add: loop_reconnect_def conn)
  have wifi_ok: "setup_wifi wifi s =
        Some (s\<lparr>waited := waited s + 10 + 500 * (i - status_calls s), status_calls := i + 1\<rparr>)"
    if "status_calls s \<le> i" "wifi i" "\<forall>j. status_calls s \<le> j \<and> j < i \<longrightarrow> \<not> wifi j"
    using that wifi_wait_returns [of "delay 10 s" i wifi]
    by (simp add: setup_wifi_def delay_def)
  have wifi_no: "setup_wifi wifi s = None" if "\<forall>j. status_calls s \<le> j \<longrightarrow> \<not> wifi j"
    using that wifi_wait_never [of "delay 10 s" wifi]
    by (simp add: setup_wifi_def delay_def)
  show ?thesis
    using reconnect_Some_connected [of broker s] conn loop wifi_ok wifi_no
      reconnect_returns [of s k broker] reconnect_never [of s broker]
    by blast
qed

theorem connectivity_contract_witness:
  "reconnect (\<lambda>n. 2 \<le> n) initial
     = Some (initial\<lparr>connected := True, subscribed := [''esp32_htj/output''],
          waited := 10000, connect_calls := 3\<rparr>) \<and>
   connected (initial\<lparr>connected := True, subscribed := [''esp32_htj/output''],
          waited := 10000, connect_calls := 3\<rparr>) \<and>
   reconnect (\<lambda>n. 2 \<le> n) (initial\<lparr>connected := True\<rparr>) = Some (initial\<lparr>connected := True\<rparr>) \<and>
   reconnect (\<lambda>n. False) initial = None \<and>
   setup_wifi (\<lambda>n. 3 \<le> n) initial = Some (initial\<lparr>waited := 1510, status_calls := 4\<rparr>) \<and>
   setup_wifi (\<lambda>n. False) initial = None"
proof -
  have a: "reconnect (\<lambda>n. 2 \<le> n) initial
     = Some (initial\<lparr>connected := True, subscribed := [''esp32_htj/output''],
          waited := 10000, connect_calls := 3\<rparr>)"
    using connectivity_contract
      [where broker = "\<lambda>n. 2 \<le> n" and s = initial and k = 2 and i = 0 and wifi = "\<lambda>n. False"]
    by (simp add: initial_def)
  have b: "connected (initial\<lparr>connected := True, subscribed := [''esp32_htj/output''],
          waited := 10000, connect_calls := 3\<rparr>)"
    using connectivity_contract
      [where broker = "\<lambda>n. 2 \<le> n" and s = initial and k = 2 and i = 0 and wifi = "\<lambda>n. False"] a
    by blast
  have c: "reconnect (\<lambda>n. 2 \<le> n) (initial\<lparr>connected := True\<rparr>) = Some (initial\<lparr>connected := True\<rparr>)"
    using connectivity_contract
      [where broker = "\<lambda>n. 2 \<le> n" and s = "initial\<lparr>connected := True\<rparr>" and k = 2 and i = 0 and wifi = "\<lambda>n. False"]
    by simp
  have d: "reconnect (\<lambda>n. False) initial = None \<and> setup_wifi (\<lambda>n. False) initial = None"
    using connectivity_contract
      [where broker = "\<lambda>n. False" and s = initial and k = 0 and i = 0 and wifi = "\<lambda>n. False"]
    by (simp add: initial_def)
  have e: "setup_wifi (\<lambda>n. 3 \<le> n) initial = Some (initial\<lparr>waited := 1510, status_calls := 4\<rparr>)"
    using connectivity_contract
      [where broker = "\<lambda>n. False" and s = initial and k = 0 and i = 3 and wifi = "\<lambda>n. 3 \<le> n"]
    by (simp add: initial_def)
  from a b c d e show ?thesis by blast
qed

section \<open>Start-up\<close>

lemma halt_runs: "halt fuel s = Running (s\<lparr>waited := waited s + 10 * fuel\<rparr>)"
  by (induction fuel arbitrary: s) (simp_all add: delay_def)

lemma serial_wait_frame:
  "serial_wait serial fuel s = Running t \<or> serial_wait serial fuel s = Returned t \<Longrightarrow>
   begin_calls t = begin_calls s \<and> lastMsg t = lastMsg s \<and> connected t = connected s \<and>
   subscribed t = subscribed s \<and> published t = published s \<and> delivered t = delivered s \<and>
   status_calls t = status_calls s \<and> connect_calls t = connect_calls s"
proof (induction fuel arbitrary: s)
  case 0
  then show ?case by auto
next
  case (Suc fuel)
  show ?case
  proof (cases "serial (serial_calls s)")
    case True
    with Suc.prems show ?thesis by auto
  next
    case False
    let ?s1 = "delay 10 (s\<lparr>serial_calls := serial_calls s + 1\<rparr>)"
    from False Suc.prems
    have "serial_wait serial fuel ?s1 = Running t \<or> serial_wait serial fuel ?s1 = Returned t"
      by simp
    from Suc.IH [OF this] show ?thesis
      by (simp add: delay_def)
  qed
qed

lemma serial_wait_returns:
  "serial_calls s \<le> k \<Longrightarrow> serial k \<Longrightarrow>
   (\<forall>j. serial_calls s \<le> j \<and> j < k \<longrightarrow> \<not> serial j) \<Longrightarrow> k - serial_calls s < fuel \<Longrightarrow>
   serial_wait serial fuel s =
     Returned (s\<lparr>waited := waited s + 10 * (k - serial_calls s), serial_calls := k + 1\<rparr>)"
proof (induction fuel arbitrary: s)
  case 0
  then show ?case by simp
next
  case (Suc fuel)
  show ?case
  proof (cases "serial (serial_calls s)")
    case True
    with Suc.prems have "k = serial_calls s"
      by (metis le_neq_implies_less order_refl)
    with True show ?thesis by simp
  next
    case False
    let ?s1 = "delay 10 (s\<lparr>serial_calls := serial_calls s + 1\<rparr>)"
    from False Suc.prems have lt: "serial_calls s < k"
      by (metis le_neq_implies_less)
    have "serial_wait serial fuel ?s1 =
      Returned (?s1\<lparr>waited := waited ?s1 + 10 * (k - serial_calls ?s1),
        serial_calls := k + 1\<rparr>)"
    proof (rule Suc.IH)
      show "serial_calls ?s1 \<le> k" using lt by (simp add: delay_def)
      show "serial k" by fact
      show "\<forall>j. serial_calls ?s1 \<le> j \<and> j < k \<longrightarrow> \<not> serial j"
        using Suc.prems by (simp add: delay_def)
      show "k - serial_calls ?s1 < fuel"
        using Suc.prems lt by (simp add: delay_def)
    qed
    moreover have "10 + 10 * (k - Suc (serial_calls s)) = 10 * (k - serial_calls s)"
      using lt by simp
    ultimately show ?thesis
      using False by (simp add: delay_def add.assoc)
  qed
qed

text \<open>A bounded run of the WiFi loop that returns is a run of the loop itself.\<close>

lemma wifi_wait_run_Returned:
  "wifi_wait_run wifi fuel s = Returned t \<Longrightarrow> wifi_wait wifi s = Some t"
proof (induction fuel arbitrary: s)
  case 0
  then show ?case by simp
next
  case (Suc fuel)
  show ?case
  proof (cases "wifi (status_calls s)")
    case True
    with Suc.prems show ?thesis
      by (subst wifi_wait.simps) simp
  next
    case False
    with Suc.prems
    have "wifi_wait wifi (delay 500 (s\<lparr>status_calls := status_calls s + 1\<rparr>)) = Some t"
      by (intro Suc.IH) simp
    with False show ?thesis
      by (subst wifi_wait.simps) simp
  qed
qed

lemma wifi_wait_run_returns:
  "status_calls s \<le> k \<Longrightarrow> wifi k \<Longrightarrow>
   (\<forall>j. status_calls s \<le> j \<and> j < k \<longrightarrow> \<not> wifi j) \<Longrightarrow> k - status_calls s < fuel \<Longrightarrow>
   wifi_wait_run wifi fuel s =
     Returned (s\<lparr>waited := waited s + 500 * (k - status_calls s), status_calls := k + 1\<rparr>)"
proof (induction fuel arbitrary: s)
  case 0
  then show ?case by simp
next
  case (Suc fuel)
  show ?case
  proof (cases "wifi (status_calls s)")
    case True
    with Suc.prems have "k = status_calls s"
      by (metis le_neq_implies_less order_refl)
    with True show ?thesis by simp
  next
    case False
    let ?s1 = "delay 500 (s\<lparr>status_calls := status_calls s + 1\<rparr>)"
    from False Suc.prems have lt: "status_calls s < k"
      by (metis le_neq_implies_less)
    have "wifi_wait_run wifi fuel ?s1 =
      Returned (?s1\<lparr>waited := waited ?s1 + 500 * (k - status_calls ?s1),
        status_calls := k + 1\<rparr>)"
    proof (rule Suc.IH)
      show "status_calls ?s1 \<le> k" using lt by (simp add: delay_def)
      show "wifi k" by fact
      show "\<forall>j. status_calls ?s1 \<le> j \<and> j < k \<longrightarrow> \<not> wifi j"
        using Suc.prems by (simp add: delay_def)
      show "k - status_calls ?s1 < fuel"
        using Suc.prems lt by (simp add: delay_def)
    qed
    moreover have "500 + 500 * (k - Suc (status_calls s)) = 500 * (k - status_calls s)"
      using lt by simp
    ultimately show ?thesis
      using False by (simp add: delay_def add.assoc)
  qed
qed

text \<open>The bounded runs of the WiFi loop return what the loop itself returns.\<close>

lemma wifi_wait_run_iff:
  "wifi_wait wifi s = Some t \<longleftrightarrow> (\<exists>fuel. wifi_wait_run wifi fuel s = Returned t)"
proof
  assume some: "wifi_wait wifi s = Some t"
  then obtain k0 where "status_calls s \<le> k0 \<and> wifi k0"
    using wifi_wait_Some_up by blast
  define k where "k = (LEAST k. status_calls s \<le> k \<and> wifi k)"
  have k: "status_calls s \<le> k \<and> wifi k"
    unfolding k_def by (rule LeastI) fact
  have least: "\<forall>j. status_calls s \<le> j \<and> j < k \<longrightarrow> \<not> wifi j"
    unfolding k_def using not_less_Least by blast
  from k least have "wifi_wait wifi s =
      Some (s\<lparr>waited := waited s + 500 * (k - status_calls s), status_calls := k + 1\<rparr>)"
    by (intro wifi_wait_returns) simp_all
  with some
  have t: "t = s\<lparr>waited := waited s + 500 * (k - status_calls s), status_calls := k + 1\<rparr>"
    by simp
  from k least have "wifi_wait_run wifi (Suc (k - status_calls s)) s = Returned t"
    unfolding t by (intro wifi_wait_run_returns) simp_all
  then show "\<exists>fuel. wifi_wait_run wifi fuel s = Returned t" ..
next
  assume "\<exists>fuel. wifi_wait_run wifi fuel s = Returned t"
  then show "wifi_wait wifi s = Some t"
    using wifi_wait_run_Returned by blast
qed

text \<open>With the sensor found and port and link ready at once, \<open>setup\<close> returns.\<close>

lemma sketch_setup_returns:
  assumes "mpu_found w" "serial_ready w (serial_calls s)" "wifi_up w (status_calls s)"
  shows "sketch_setup w (Suc fuel) s =
     Returned (s\<lparr>waited := waited s + 110, serial_calls := serial_calls s + 1,
             begin_calls := begin_calls s + 1, status_calls := status_calls s + 1\<rparr>)"
  using assms by (simp add: sketch_setup_def setup_wifi_run_def delay_def)

lemma sketch_setup_halts:
  assumes "\<not> mpu_found w"
  shows "\<exists>t. sketch_setup w fuel s = Running t \<and> begin_calls t \<le> begin_calls s + 1 \<and>
    lastMsg t = lastMsg s \<and> connected t = connected s \<and> subscribed t = subscribed s \<and>
    published t = published s \<and> delivered t = delivered s \<and>
    status_calls t = status_calls s \<and> connect_calls t = connect_calls s"
proof (cases "serial_wait (serial_ready w) fuel s")
  case (Running t)
  then have "sketch_setup w fuel s = Running t"
    by (simp add: sketch_setup_def)
  moreover from Running have "begin_calls t = begin_calls s \<and> lastMsg t = lastMsg s \<and>
    connected t = connected s \<and> subscribed t = subscribed s \<and> published t = published s \<and>
    delivered t = delivered s \<and> status_calls t = status_calls s \<and>
    connect_calls t = connect_calls s"
    using serial_wait_frame [of "serial_ready w" fuel s t] by simp
  ultimately show ?thesis by simp
next
  case (Returned s1)
  then have frame: "begin_calls s1 = begin_calls s \<and> lastMsg s1 = lastMsg s \<and>
    connected s1 = connected s \<and> subscribed s1 = subscribed s \<and>
    published s1 = published s \<and> delivered s1 = delivered s \<and>
    status_calls s1 = status_calls s \<and> connect_calls s1 = connect_calls s"
    using serial_wait_frame [of "serial_ready w" fuel s s1] by simp
  have "sketch_setup w fuel s =
      Running (s1\<lparr>begin_calls := begin_calls s1 + 1, waited := waited s1 + 10 * fuel\<rparr>)"
    using assms Returned by (simp add: sketch_setup_def halt_runs)
  with frame show ?thesis
    by simp
qed

text \<open>
  Claim C8. If \<open>mpu.begin()\<close> fails, \<open>setup\<close> does not return, however long it is
  left to run, so \<open>loop\<close> is never entered. In the state in which it is still running
  \<open>mpu.begin\<close> has been called at most once more than before (the initialisation is not
  tried again), the WiFi link has not been polled, and nothing has been connected,
  subscribed or published. Once the serial port is ready, at test \<open>k\<close>, the run is in the
  final loop: \<open>mpu.begin\<close> has been called exactly once and the only thing that grows with
  the length of the run is the time waited, 10 ms for each turn of the loop.
\<close>

theorem sensor_init_failure_halts:
  "\<not> mpu_found w \<longrightarrow>
     (\<exists>t. sketch_setup w fuel s = Running t \<and> begin_calls t \<le> begin_calls s + 1 \<and>
        lastMsg t = lastMsg s \<and> connected t = connected s \<and> subscribed t = subscribed s \<and>
        published t = published s \<and> delivered t = delivered s \<and>
        status_calls t = status_calls s \<and> connect_calls t = connect_calls s) \<and>
     (serial_calls s \<le> k \<and> serial_ready w k \<and>
      (\<forall>j. serial_calls s \<le> j \<and> j < k \<longrightarrow> \<not> serial_ready w j) \<and> k - serial_calls s < fuel \<longrightarrow>
        sketch_setup w fuel s =
          Running (s\<lparr>waited := waited s + 10 * (k - serial_calls s) + 10 * fuel,
                    serial_calls := k + 1, begin_calls := begin_calls s + 1\<rparr>))"
proof (intro impI conjI)
  assume "\<not> mpu_found w"
  then show "\<exists>t. sketch_setup w fuel s = Running t \<and> begin_calls t \<le> begin_calls s + 1 \<and>
        lastMsg t = lastMsg s \<and> connected t = connected s \<and> subscribed t = subscribed s \<and>
        published t = published s \<and> delivered t = delivered s \<and>
        status_calls t = status_calls s \<and> connect_calls t = connect_calls s"
    by (rule sketch_setup_halts)
next
  assume nf: "\<not> mpu_found w"
    and ready: "serial_calls s \<le> k \<and> serial_ready w k \<and>
      (\<forall>j. serial_calls s \<le> j \<and> j < k \<longrightarrow> \<not> serial_ready w j) \<and> k - serial_calls s < fuel"
  then have "serial_wait (serial_ready w) fuel s =
     Returned (s\<lparr>waited := waited s + 10 * (k - serial_calls s), serial_calls := k + 1\<rparr>)"
    by (intro serial_wait_returns) simp_all
  with nf show "sketch_setup w fuel s =
          Running (s\<lparr>waited := waited s + 10 * (k - serial_calls s) + 10 * fuel,
                    serial_calls := k + 1, begin_calls := begin_calls s + 1\<rparr>)"
    by (simp add: sketch_setup_def halt_runs)
qed

theorem sensor_init_failure_halts_witness:
  "\<not> mpu_found \<lparr>serial_ready = \<lambda>n. 2 \<le> n, mpu_found = False, wifi_up = \<lambda>n. True,
       broker_accepts = \<lambda>n. True\<rparr> \<and>
   sketch_setup \<lparr>serial_ready = \<lambda>n. 2 \<le> n, mpu_found = False, wifi_up = \<lambda>n. True,
       broker_accepts = \<lambda>n. True\<rparr> 100 initial
     = Running (initial\<lparr>waited := 1020, serial_calls := 3, begin_calls := 1\<rparr>) \<and>
   sketch_setup \<lparr>serial_ready = \<lambda>n. True, mpu_found = True, wifi_up = \<lambda>n. True,
       broker_accepts = \<lambda>n. True\<rparr> 100 initial
     = Returned (initial\<lparr>waited := 110, serial_calls := 1, begin_calls := 1,
         status_calls := 1\<rparr>)"
proof -
  have "sketch_setup \<lparr>serial_ready = \<lambda>n. 2 \<le> n, mpu_found = False, wifi_up = \<lambda>n. True,
       broker_accepts = \<lambda>n. True\<rparr> 100 initial
     = Running (initial\<lparr>waited := 1020, serial_calls := 3, begin_calls := 1\<rparr>)"
    using sensor_init_failure_halts
      [where w = "\<lparr>serial_ready = \<lambda>n. 2 \<le> n, mpu_found = False, wifi_up = \<lambda>n. True,
         broker_accepts = \<lambda>n. True\<rparr>" and fuel = 100 and s = initial and k = 2]
    by (simp add: initial_def)
  moreover have "sketch_setup \<lparr>serial_ready = \<lambda>n. True, mpu_found = True, wifi_up = \<lambda>n. True,
       broker_accepts = \<lambda>n. True\<rparr> 100 initial
     = Returned (initial\<lparr>waited := 110, serial_calls := 1, begin_calls := 1,
         status_calls := 1\<rparr>)"
    using sketch_setup_returns
      [of "\<lparr>serial_ready = \<lambda>n. True, mpu_found = True, wifi_up = \<lambda>n. True,
         broker_accepts = \<lambda>n. True\<rparr>" initial 99]
    by (simp add: initial_def)
  ultimately show ?thesis by simp
qed

end
